theory Spec2Isabelle
  imports Complex_Main
begin

section \<open>Characters and strings\<close>

text \<open>
  The programs work on Python \<open>str\<close> values.  A text is modelled as a \<open>string\<close>, each
  \<open>char\<close> standing for one code point below 256.  The character classes below are the
  ones Python's \<open>re\<close> and \<open>str\<close> methods use on that range.
\<close>

definition newline :: char where
  "newline = CHR ''\<newline>''"

text \<open>\<open>\s\<close> and \<open>str.isspace\<close>: TAB..CR, FS..US, space, NEL and NBSP.\<close>

definition is_space :: "char \<Rightarrow> bool" where
  "is_space c = (let n = (of_char c :: nat) in
     (9 \<le> n \<and> n \<le> 13) \<or> (28 \<le> n \<and> n \<le> 32) \<or> n = 133 \<or> n = 160)"

text \<open>\<open>\d\<close>: the decimal digits.\<close>

definition is_digit :: "char \<Rightarrow> bool" where
  "is_digit c = (let n = (of_char c :: nat) in 48 \<le> n \<and> n \<le> 57)"

text \<open>The set \<open>[0-9A-F]\<close> as written in the patterns.\<close>

definition is_hex_upper :: "char \<Rightarrow> bool" where
  "is_hex_upper c = (c \<in> set ''0123456789ABCDEF'')"

text \<open>The membership test \<open>c in '0123456789ABCDEFabcdef'\<close>.\<close>

definition is_hex_any :: "char \<Rightarrow> bool" where
  "is_hex_any c = (c \<in> set ''0123456789ABCDEFabcdef'')"

text \<open>The set \<open>[0-9A-F\s]\<close>.\<close>

definition is_hex_or_space :: "char \<Rightarrow> bool" where
  "is_hex_or_space c = (is_hex_upper c \<or> is_space c)"

text \<open>
  \<open>\w\<close>: underscore and every alphanumeric character (letters, digits, and the
  characters \<open>str.isnumeric\<close> accepts: superscript digits and vulgar fractions).
\<close>

definition is_word :: "char \<Rightarrow> bool" where
  "is_word c = (let n = (of_char c :: nat) in
     (48 \<le> n \<and> n \<le> 57) \<or> (65 \<le> n \<and> n \<le> 90) \<or> n = 95 \<or> (97 \<le> n \<and> n \<le> 122) \<or>
     n = 170 \<or> n = 178 \<or> n = 179 \<or> n = 181 \<or> n = 185 \<or> n = 186 \<or>
     (188 \<le> n \<and> n \<le> 190) \<or> (192 \<le> n \<and> n \<le> 214) \<or> (216 \<le> n \<and> n \<le> 246) \<or>
     (248 \<le> n \<and> n \<le> 255))"

text \<open>
  \<open>str.lower\<close> on one character: \<open>A-Z\<close> and the capital letters \<open>U+00C0..U+00DE\<close>
  (the multiplication sign apart) move up by 32.
\<close>

definition lower_char :: "char \<Rightarrow> char" where
  "lower_char c = (let n = (of_char c :: nat) in
     if (65 \<le> n \<and> n \<le> 90) \<or> (192 \<le> n \<and> n \<le> 222 \<and> n \<noteq> 215) then char_of (n + 32) else c)"

text \<open>
  \<open>str.upper\<close> on one character.  The program calls \<open>upper\<close> only on strings that were
  filtered down to hexadecimal digits, so only \<open>a-z\<close> matter; the small letters
  \<open>U+00E0..U+00FE\<close> (the division sign apart) move down by 32 as well.
\<close>

definition upper_char :: "char \<Rightarrow> char" where
  "upper_char c = (let n = (of_char c :: nat) in
     if (97 \<le> n \<and> n \<le> 122) \<or> (224 \<le> n \<and> n \<le> 254 \<and> n \<noteq> 247) then char_of (n - 32) else c)"

definition upper :: "string \<Rightarrow> string" where
  "upper s = map upper_char s"

definition lower :: "string \<Rightarrow> string" where
  "lower s = map lower_char s"

text \<open>\<open>str.strip()\<close>: leading and trailing whitespace removed.\<close>

definition strip :: "string \<Rightarrow> string" where
  "strip s = rev (dropWhile is_space (rev (dropWhile is_space s)))"

text \<open>
  \<open>int(s)\<close> on a string of decimal digits.  Python integers are unbounded; the
  interpreter's configurable limit on the number of digits \<open>int\<close> converts is not
  modelled.
\<close>

definition digit_val :: "char \<Rightarrow> nat" where
  "digit_val c = (of_char c :: nat) - 48"

definition int_of_digits :: "string \<Rightarrow> nat" where
  "int_of_digits s = foldl (\<lambda>a c. 10 * a + digit_val c) 0 s"


section \<open>The fragment of Python's \<open>re\<close> the programs use\<close>

text \<open>
  A backtracking matcher.  It returns every way the pattern can match at the start of the
  text, in the order Python's engine tries them, so the head of the list is the match
  \<open>re\<close> reports.  A result is the text left after the match and the groups captured.
  Quantifiers \<open>*\<close>, \<open>+\<close> and \<open>+?\<close> occur in the programs only on single-character
  sets; counted repetition \<open>{n}\<close> applies to any pattern.  \<open>Dollar\<close> is \<open>$\<close> under
  \<open>re.MULTILINE\<close>.  The flag \<open>ic\<close> is \<open>re.IGNORECASE\<close>.
\<close>

datatype regex =
    Lit char
  | CSet "char \<Rightarrow> bool"
  | Seq regex regex
  | Alt regex regex
  | Star "char \<Rightarrow> bool"
  | Plus "char \<Rightarrow> bool"
  | LazyPlus "char \<Rightarrow> bool"
  | Rep nat regex
  | Grp nat regex
  | Dollar

type_synonym groups = "nat \<Rightarrow> string option"

definition lit_ok :: "bool \<Rightarrow> char \<Rightarrow> char \<Rightarrow> bool" where
  "lit_ok ic c x = (if ic then lower_char x = lower_char c else x = c)"

definition set_ok :: "bool \<Rightarrow> (char \<Rightarrow> bool) \<Rightarrow> char \<Rightarrow> bool" where
  "set_ok ic p x = (p x \<or> (ic \<and> (p (lower_char x) \<or> p (upper_char x))))"

text \<open>Greedy repetition of a set: the longest run first, then shorter ones.\<close>

fun rep_greedy :: "(char \<Rightarrow> bool) \<Rightarrow> string \<Rightarrow> string list" where
  "rep_greedy p [] = [[]]"
| "rep_greedy p (c # s) = (if p c then rep_greedy p s @ [c # s] else [c # s])"

text \<open>Lazy repetition of a set: the shortest run first, then longer ones.\<close>

fun rep_lazy :: "(char \<Rightarrow> bool) \<Rightarrow> string \<Rightarrow> string list" where
  "rep_lazy p [] = [[]]"
| "rep_lazy p (c # s) = (c # s) # (if p c then rep_lazy p s else [])"

text \<open>The size of a pattern, counting the repetitions of \<open>{n}\<close>.\<close>

fun rsize :: "regex \<Rightarrow> nat" where
  "rsize (Seq a b) = Suc (rsize a + rsize b)"
| "rsize (Alt a b) = Suc (rsize a + rsize b)"
| "rsize (Rep n r) = Suc (n + rsize r)"
| "rsize (Grp i r) = Suc (rsize r)"
| "rsize r = 0"

function (sequential) rmatch :: "bool \<Rightarrow> regex \<Rightarrow> string \<times> groups \<Rightarrow> (string \<times> groups) list" where
  "rmatch ic (Lit c) (s, g) =
     (case s of [] \<Rightarrow> [] | x # t \<Rightarrow> if lit_ok ic c x then [(t, g)] else [])"
| "rmatch ic (CSet p) (s, g) =
     (case s of [] \<Rightarrow> [] | x # t \<Rightarrow> if set_ok ic p x then [(t, g)] else [])"
| "rmatch ic (Seq a b) st = concat (map (rmatch ic b) (rmatch ic a st))"
| "rmatch ic (Alt a b) st = rmatch ic a st @ rmatch ic b st"
| "rmatch ic (Star p) (s, g) = map (\<lambda>t. (t, g)) (rep_greedy (set_ok ic p) s)"
| "rmatch ic (Plus p) (s, g) =
     (case s of [] \<Rightarrow> []
      | x # t \<Rightarrow> if set_ok ic p x then map (\<lambda>t. (t, g)) (rep_greedy (set_ok ic p) t) else [])"
| "rmatch ic (LazyPlus p) (s, g) =
     (case s of [] \<Rightarrow> []
      | x # t \<Rightarrow> if set_ok ic p x then map (\<lambda>t. (t, g)) (rep_lazy (set_ok ic p) t) else [])"
| "rmatch ic (Rep 0 r) st = [st]"
| "rmatch ic (Rep (Suc n) r) st = concat (map (rmatch ic (Rep n r)) (rmatch ic r st))"
| "rmatch ic (Grp i r) (s, g) =
     map (\<lambda>(t, g'). (t, g'(i \<mapsto> take (length s - length t) s))) (rmatch ic r (s, g))"
| "rmatch ic Dollar (s, g) =
     (case s of [] \<Rightarrow> [(s, g)] | x # t \<Rightarrow> if x = newline then [(s, g)] else [])"
  by pat_completeness auto
termination
  by (relation "measure (\<lambda>(ic, r, st). rsize r)") auto

text \<open>A literal string in a pattern, followed by the rest of the pattern.\<close>

definition lits :: "string \<Rightarrow> regex \<Rightarrow> regex" where
  "lits cs r = foldr (\<lambda>c r. Seq (Lit c) r) cs r"

text \<open>The match at the start of the text, if any: consumed length and groups.\<close>

definition match_at :: "bool \<Rightarrow> regex \<Rightarrow> string \<Rightarrow> (nat \<times> groups) option" where
  "match_at ic r s =
     (case rmatch ic r (s, Map.empty) of [] \<Rightarrow> None
      | (t, g) # _ \<Rightarrow> Some (length s - length t, g))"

text \<open>\<open>re.search\<close>: the match at the leftmost position that has one.\<close>

fun re_search :: "bool \<Rightarrow> regex \<Rightarrow> string \<Rightarrow> groups option" where
  "re_search ic r [] = map_option snd (match_at ic r [])"
| "re_search ic r (c # s) =
     (case match_at ic r (c # s) of Some (n, g) \<Rightarrow> Some g | None \<Rightarrow> re_search ic r s)"

text \<open>
  \<open>re.finditer\<close>: the matches from left to right, none overlapping another.  The counter
  is the number of characters still covered by the previous match.  No pattern of the
  programs matches the empty string, so no match is looked for at the end of the text.
\<close>

fun finditer_from :: "nat \<Rightarrow> bool \<Rightarrow> regex \<Rightarrow> string \<Rightarrow> groups list" where
  "finditer_from k ic r [] = []"
| "finditer_from (Suc k) ic r (c # s) = finditer_from k ic r s"
| "finditer_from 0 ic r (c # s) =
     (case match_at ic r (c # s) of
        None \<Rightarrow> finditer_from 0 ic r s
      | Some (n, g) \<Rightarrow> g # finditer_from (n - 1) ic r s)"

definition re_finditer :: "bool \<Rightarrow> regex \<Rightarrow> string \<Rightarrow> groups list" where
  "re_finditer ic r s = finditer_from 0 ic r s"

text \<open>\<open>re.sub(pattern, '', s)\<close>: every match deleted, the other characters kept.\<close>

fun sub_from :: "nat \<Rightarrow> bool \<Rightarrow> regex \<Rightarrow> string \<Rightarrow> string" where
  "sub_from k ic r [] = []"
| "sub_from (Suc k) ic r (c # s) = sub_from k ic r s"
| "sub_from 0 ic r (c # s) =
     (case match_at ic r (c # s) of
        None \<Rightarrow> c # sub_from 0 ic r s
      | Some (n, g) \<Rightarrow> if n = 0 then c # sub_from 0 ic r s else sub_from (n - 1) ic r s)"

definition re_sub_empty :: "bool \<Rightarrow> regex \<Rightarrow> string \<Rightarrow> string" where
  "re_sub_empty ic r s = sub_from 0 ic r s"

text \<open>
  \<open>match.group(i)\<close>.  In each pattern of the programs every group takes part in every
  match, so the group is always a string.
\<close>

definition match_group :: "groups \<Rightarrow> nat \<Rightarrow> string" where
  "match_group g i = (case g i of None \<Rightarrow> [] | Some w \<Rightarrow> w)"


section \<open>\<open>convert_nfc_to_json.py\<close>: the tag file parser\<close>

record tag_record =
  uid :: "string option"
  atqa :: "string option"
  sak :: "string option"
  mifare_type :: "string option"
  blocks :: "string list"

text \<open>The two warnings the parser can print, with the block number and the length.\<close>

datatype diagnostic = Truncated nat nat | InvalidLength nat nat

text \<open>\<open>UID:\s*([0-9A-F\s]+?)(?:\n|$)\<close>, with \<open>re.IGNORECASE | re.MULTILINE\<close>.\<close>

definition uid_re :: regex where
  "uid_re = lits ''UID:'' (Seq (Star is_space) (Seq (Grp 1 (LazyPlus is_hex_or_space))
     (Alt (Lit newline) Dollar)))"

text \<open>\<open>ATQA:\s*([0-9A-F\s]+)\<close> and \<open>SAK:\s*([0-9A-F\s]+)\<close>, without flags.\<close>

definition atqa_re :: regex where
  "atqa_re = lits ''ATQA:'' (Seq (Star is_space) (Grp 1 (Plus is_hex_or_space)))"

definition sak_re :: regex where
  "sak_re = lits ''SAK:'' (Seq (Star is_space) (Grp 1 (Plus is_hex_or_space)))"

text \<open>\<open>Mifare Classic type:\s*(\w+)\<close>, without flags.\<close>

definition mifare_re :: regex where
  "mifare_re = lits ''Mifare Classic type:'' (Seq (Star is_space) (Grp 1 (Plus is_word)))"

text \<open>
  \<open>Block\s+(\d+):\s*((?:[0-9A-F]{2}\s*){16})\<close>, with \<open>re.MULTILINE | re.IGNORECASE\<close>.
\<close>

definition block_re :: regex where
  "block_re = lits ''Block'' (Seq (Plus is_space) (Seq (Grp 1 (Plus is_digit))
     (Seq (Lit CHR '':'') (Seq (Star is_space)
       (Grp 2 (Rep 16 (Seq (Rep 2 (CSet is_hex_upper)) (Star is_space))))))))"

text \<open>
  \<open>re.sub(r'[^0-9A-F]', '', uid_str, flags=re.IGNORECASE).upper()\<close>: the characters
  outside the set, in either case, are deleted.
\<close>

definition clean_uid :: "string \<Rightarrow> string" where
  "clean_uid uid_str = upper (filter (set_ok True is_hex_upper) uid_str)"

text \<open>\<open>''.join(c for c in s if c in '0123456789ABCDEFabcdef').upper()\<close>\<close>

definition clean_hex :: "string \<Rightarrow> string" where
  "clean_hex s = upper (filter is_hex_any s)"

text \<open>\<open>re.sub(r'\s+', '', match.group(2)).upper()\<close>\<close>

definition clean_block :: "string \<Rightarrow> string" where
  "clean_block s = upper (filter (\<lambda>c. \<not> is_space c) s)"

text \<open>\<open>int(match.group(1))\<close>\<close>

definition block_num :: "groups \<Rightarrow> nat" where
  "block_num m = int_of_digits (match_group m 1)"

text \<open>The body of the loop over the block matches: the dictionary and the warnings.\<close>

definition store_block ::
  "groups \<Rightarrow> (nat \<rightharpoonup> string) \<times> diagnostic list \<Rightarrow> (nat \<rightharpoonup> string) \<times> diagnostic list" where
  "store_block m acc =
     (let bs = fst acc; out = snd acc;
          block_data = clean_block (match_group m 2)
      in if length block_data = 32 then (bs(block_num m \<mapsto> block_data), out)
         else if length block_data > 32
           then (bs(block_num m \<mapsto> take 32 block_data),
                 out @ [Truncated (block_num m) (length block_data)])
         else (bs, out @ [InvalidLength (block_num m) (length block_data)]))"

definition block_matches :: "string \<Rightarrow> groups list" where
  "block_matches content = re_finditer True block_re content"

definition collect_blocks :: "groups list \<Rightarrow> (nat \<rightharpoonup> string) \<times> diagnostic list" where
  "collect_blocks ms = fold store_block ms (Map.empty, [])"

text \<open>The block numbers of the block lines matched in a text.\<close>

definition found_indices :: "string \<Rightarrow> nat list" where
  "found_indices content = map block_num (block_matches content)"

text \<open>The block number a warning names.\<close>

fun diagnostic_block :: "diagnostic \<Rightarrow> nat" where
  "diagnostic_block (Truncated n l) = n"
| "diagnostic_block (InvalidLength n l) = n"

text \<open>\<open>'00' * 16\<close>\<close>

definition empty_block :: string where
  "empty_block = concat (replicate 16 ''00'')"

text \<open>The loop \<open>for i in range(64)\<close> that builds the array.\<close>

definition assemble :: "(nat \<rightharpoonup> string) \<Rightarrow> string list" where
  "assemble bs = map (\<lambda>i. case bs i of Some b \<Rightarrow> b | None \<Rightarrow> empty_block) [0..<64]"

text \<open>
  \<open>parse_flipper_nfc_file\<close>, from the text of the file on: the record it returns and
  the warnings it prints.
\<close>

definition parse_flipper_nfc_file :: "string \<Rightarrow> tag_record \<times> diagnostic list" where
  "parse_flipper_nfc_file content =
     (let found = collect_blocks (block_matches content)
      in (\<lparr> uid = map_option (\<lambda>m. clean_uid (strip (match_group m 1))) (re_search True uid_re content),
            atqa = map_option (\<lambda>m. clean_hex (strip (match_group m 1))) (re_search False atqa_re content),
            sak = map_option (\<lambda>m. clean_hex (strip (match_group m 1))) (re_search False sak_re content),
            mifare_type = map_option (\<lambda>m. match_group m 1) (re_search False mifare_re content),
            blocks = assemble (fst found) \<rparr>,
          snd found))"



section \<open>\<open>convert_nfc_to_json.py\<close>: the tree converter\<close>

text \<open>
  One file found by \<open>source_path.rglob('*.nfc')\<close>: the string \<open>str(nfc_file)\<close>, the
  components of its path relative to the source root (the file name last), and what
  opening and reading it gives: the text, or the message of the exception raised.
\<close>

record nfc_file =
  file_str :: string
  rel_parts :: "string list"
  file_text :: "string + string"

record metadata =
  original_filename :: string
  original_path :: string
  category :: "string option"
  subcategory :: "string option"

text \<open>The dictionary \<open>nfc_data\<close> once its \<open>'metadata'\<close> key is set: what is written.\<close>

record json_doc =
  tag :: tag_record
  meta :: metadata

text \<open>What the loop prints for one file.\<close>

datatype message =
    Warning diagnostic
  | Progress nat nat
  | ErrorConverting string string

text \<open>
  The state of the loop in \<open>convert_all_nfc_files\<close>: the files written so far (output
  path relative to the output root, and document), the counter, the error list and the
  lines printed.
\<close>

record conv_state =
  written :: "(string list \<times> json_doc) list"
  converted_count :: nat
  errors :: "(string \<times> string) list"
  printed :: "message list"

text \<open>\<open>PurePath.name\<close>: the last component, empty when there is none.\<close>

definition path_name :: "string list \<Rightarrow> string" where
  "path_name parts = (case rev parts of [] \<Rightarrow> [] | n # _ \<Rightarrow> n)"

text \<open>
  \<open>PurePath.suffix\<close>: the name from its last dot on, when that dot is neither the first
  nor the last character.
\<close>

definition path_suffix :: "string \<Rightarrow> string" where
  "path_suffix name =
     (let after = rev (takeWhile (\<lambda>c. c \<noteq> CHR ''.'') (rev name))
      in if CHR ''.'' \<in> set name \<and> after \<noteq> [] \<and> Suc (length after) < length name
         then CHR ''.'' # after else [])"

text \<open>
  \<open>rel_path.with_suffix('.json')\<close>: raises \<open>ValueError\<close> on an empty name, else replaces
  the suffix of the name, or appends to a name without one.
\<close>

definition with_suffix_json :: "string list \<Rightarrow> string + string list" where
  "with_suffix_json parts =
     (let name = path_name parts
      in if name = [] then Inl ''PosixPath('.') has an empty name''
         else Inr (butlast parts @
                [take (length name - length (path_suffix name)) name @ ''.json'']))"

text \<open>\<open>str(rel_path).replace('\\', '/')\<close>\<close>

definition path_str :: "string list \<Rightarrow> string" where
  "path_str parts =
     map (\<lambda>c. if c = CHR 0x5C then CHR ''/'' else c)
       (case parts of [] \<Rightarrow> ''.'' | p # ps \<Rightarrow> p @ concat (map (\<lambda>q. CHR ''/'' # q) ps))"

text \<open>\<open>not nfc_data['uid']\<close>: \<open>None\<close> and the empty string are both false.\<close>

definition uid_missing :: "string option \<Rightarrow> bool" where
  "uid_missing u = (case u of None \<Rightarrow> True | Some v \<Rightarrow> v = [])"

text \<open>
  The body of the loop \<open>for nfc_file in nfc_files\<close>, with its \<open>try\<close> and \<open>except\<close>;
  \<open>n_files\<close> is \<open>len(nfc_files)\<close>.  Creating directories and writing the output file
  are taken to succeed.
\<close>

definition convert_file :: "nat \<Rightarrow> nfc_file \<Rightarrow> conv_state \<Rightarrow> conv_state" where
  "convert_file n_files f st =
     (case file_text f of
        Inl e \<Rightarrow>
          st\<lparr>errors := errors st @ [(file_str f, e)],
             printed := printed st @ [ErrorConverting (file_str f) e]\<rparr>
      | Inr content \<Rightarrow>
          (let parsed = parse_flipper_nfc_file content;
               nfc_data = fst parsed;
               st1 = st\<lparr>printed := printed st @ map Warning (snd parsed)\<rparr>
           in if uid_missing (uid nfc_data)
              then st1\<lparr>errors := errors st1 @ [(file_str f, ''Missing UID'')]\<rparr>
              else
                (let parts = rel_parts f
                 in case with_suffix_json parts of
                      Inl e \<Rightarrow>
                        st1\<lparr>errors := errors st1 @ [(file_str f, e)],
                            printed := printed st1 @ [ErrorConverting (file_str f) e]\<rparr>
                    | Inr output_file \<Rightarrow>
                        (let doc = \<lparr> tag = nfc_data,
                               meta = \<lparr> original_filename = path_name parts,
                                        original_path = path_str parts,
                                        category = (if length parts > 0 then Some (parts ! 0) else None),
                                        subcategory = (if length parts > 1 then Some (parts ! 1) else None) \<rparr> \<rparr>;
                             n = converted_count st1 + 1
                         in st1\<lparr>written := written st1 @ [(output_file, doc)],
                                converted_count := n,
                                printed := printed st1 @
                                  (if n mod 50 = 0 then [Progress n n_files] else [])\<rparr>))))"

definition process_files :: "nat \<Rightarrow> nfc_file list \<Rightarrow> conv_state \<Rightarrow> conv_state" where
  "process_files n_files fs st = fold (convert_file n_files) fs st"

definition initial_state :: conv_state where
  "initial_state = \<lparr> written = [], converted_count = 0, errors = [], printed = [] \<rparr>"

text \<open>\<open>convert_all_nfc_files\<close>: the state after the loop; it returns the counter and the errors.\<close>

definition convert_all_nfc_files :: "nfc_file list \<Rightarrow> conv_state" where
  "convert_all_nfc_files nfc_files = process_files (length nfc_files) nfc_files initial_state"




section \<open>\<open>enrich_character_data.py\<close>: the name normalizer\<close>

text \<open>
  \<open>str.replace(old, new)\<close>: the occurrences of \<open>old\<close> are replaced from left to right,
  none overlapping another.  The counter is the number of characters still covered by
  the occurrence just replaced.
\<close>

fun replace_from :: "nat \<Rightarrow> string \<Rightarrow> string \<Rightarrow> string \<Rightarrow> string" where
  "replace_from k old new [] = []"
| "replace_from (Suc k) old new (c # s) = replace_from k old new s"
| "replace_from 0 old new (c # s) =
     (if take (length old) (c # s) = old
      then new @ replace_from (length old - 1) old new s
      else c # replace_from 0 old new s)"

definition replace :: "string \<Rightarrow> string \<Rightarrow> string \<Rightarrow> string" where
  "replace old new s =
     (if old = [] then new @ concat (map (\<lambda>c. c # new) s) else replace_from 0 old new s)"

definition variants :: "string list" where
  "variants =
     ['' (Blue)'', '' (Legendary)'', '' (Silver)'', '' (Gold)'', '' (Red)'', '' (Clear)'',
      '' (GITD)'', '' (Metallic Purple)'', '' (Pearl)'', '' (Chrome)'', '' (Dark)'',
      '' (Flocked)'', '' (Sidekick)'', '' (SideKick)'', '' (Halloween)'', '' (Sparkle)'',
      '' (Scarlet)'', '' (Gnarly)'', '' (Granite)'', '' (Meatallic Purple)'',
      '' (Series 2)'', '' (Series 3)'', '' (Series 4)'', '' (Eons Elite)'',
      '' (Spring)'', '' (Mini)'', '' (Legendary Bone Bash)'', '' (Bone Bash)'',
      '' (Dark Sure Shot)'', '' (Shark Shooter)'', '' (Power Blue Double Dare)'',
      '' (Lava Lance)'', '' (Deep Dive)'', '' (Double Dare)'', '' (Sure Shot)'',
      '' (Bronze Bottom)'', '' (Gold Bottom)'', '' Top'', '' Bottom'']"

text \<open>\<open>\s*\(Series\s+\d+\)\<close>, with \<open>re.IGNORECASE\<close>.\<close>

definition series_re :: regex where
  "series_re = Seq (Star is_space) (lits ''(Series'' (Seq (Plus is_space)
     (Seq (Plus is_digit) (Lit CHR '')''))))"

text \<open>The loop \<open>for variant in variants: name = name.replace(variant, "")\<close>.\<close>

definition strip_variants :: "string \<Rightarrow> string" where
  "strip_variants name = fold (\<lambda>variant name. replace variant [] name) variants name"

text \<open>\<open>name.replace("-", " ").replace("_", " ").strip()\<close>\<close>

definition separators_to_spaces :: "string \<Rightarrow> string" where
  "separators_to_spaces name = strip (replace ''_'' '' '' (replace ''-'' '' '' name))"

text \<open>The two special cases, in the order of the source.\<close>

definition collapse_aliases :: "string \<Rightarrow> string" where
  "collapse_aliases name = replace ''Weeruptor'' ''Eruptor'' (replace ''Crash Bash'' ''Bash'' name)"

text \<open>\<open>normalize_name\<close>, statement by statement.\<close>

definition normalize_name :: "string \<Rightarrow> string" where
  "normalize_name name0 =
     (let name1 = fold (\<lambda>variant name. replace variant [] name) variants name0;
          name2 = re_sub_empty True series_re name1;
          name3 = strip (replace ''_'' '' '' (replace ''-'' '' '' name2));
          name4 = replace ''Crash Bash'' ''Bash'' name3;
          name5 = replace ''Weeruptor'' ''Eruptor'' name4
      in name5)"

text \<open>
  The order of steps as the specification words it: the suffix variants and series
  markers are stripped, then the aliases are collapsed, then hyphens and underscores
  become spaces and the result is trimmed.
\<close>

definition normalize_name_spec_order :: "string \<Rightarrow> string" where
  "normalize_name_spec_order name =
     separators_to_spaces (collapse_aliases (re_sub_empty True series_re (strip_variants name)))"


section \<open>\<open>enrich_character_data.py\<close>: matching and enrichment\<close>

text \<open>One entry of \<open>CHARACTER_DATABASE\<close>.\<close>

record profile =
  element :: string
  biography :: string
  abilities :: "string list"
  character_type :: string

text \<open>
  The table itself is a parameter of the functions below: the items of the dictionary
  in its iteration order, the keys distinct.
\<close>

type_synonym database = "(string \<times> profile) list"

text \<open>\<open>a in b\<close> on strings.\<close>

fun is_substring :: "string \<Rightarrow> string \<Rightarrow> bool" where
  "is_substring a [] = (a = [])"
| "is_substring a (c # s) = (take (length a) (c # s) = a \<or> is_substring a s)"

definition find_character_data :: "database \<Rightarrow> string \<Rightarrow> profile option" where
  "find_character_data db character_name =
     (let normalized = normalize_name character_name
      in case map_of db normalized of
           Some v \<Rightarrow> Some v
         | None \<Rightarrow>
             map_option snd
               (find (\<lambda>kv. is_substring (lower (fst kv)) (lower normalized) \<or>
                            is_substring (lower normalized) (lower (fst kv))) db))"

text \<open>
  What \<open>json.load\<close> returns: an object is a list of items with distinct keys, in the
  order of the dictionary.
\<close>

datatype json =
    JNull
  | JBool bool
  | JInt int
  | JFloat real
  | JStr string
  | JArr "json list"
  | JObj "(string \<times> json) list"

text \<open>The truth value Python gives a loaded value.\<close>

fun truthy :: "json \<Rightarrow> bool" where
  "truthy JNull = False"
| "truthy (JBool b) = b"
| "truthy (JInt i) = (i \<noteq> 0)"
| "truthy (JFloat x) = (x \<noteq> 0)"
| "truthy (JStr s) = (s \<noteq> [])"
| "truthy (JArr xs) = (xs \<noteq> [])"
| "truthy (JObj kvs) = (kvs \<noteq> [])"

text \<open>\<open>d[k] = v\<close> on a dictionary: a known key keeps its place, a new one goes last.\<close>

definition dict_set :: "string \<Rightarrow> json \<Rightarrow> (string \<times> json) list \<Rightarrow> (string \<times> json) list" where
  "dict_set k v kvs =
     (if map_of kvs k = None then kvs @ [(k, v)]
      else map (\<lambda>kv. if fst kv = k then (k, v) else kv) kvs)"

text \<open>\<open>s.split(",")\<close>\<close>

fun split_comma :: "string \<Rightarrow> string list" where
  "split_comma [] = [[]]"
| "split_comma (c # s) =
     (if c = CHR '','' then [] # split_comma s
      else (case split_comma s of [] \<Rightarrow> [[c]] | x # xs \<Rightarrow> (c # x) # xs))"

text \<open>The exceptions the body of \<open>enrich_json_file\<close> can raise.\<close>

datatype enrich_error =
    LoadError string
  | AttributeError
  | EOFError

text \<open>The lines \<open>enrich_json_file\<close> prints.\<close>

datatype enrich_message =
    AlreadyHasProfile string
  | Enriched string string
  | PromptCharacter string
  | AddedData string
  | NoDataFound string
  | ErrorProcessing enrich_error

text \<open>
  The outcome of \<open>enrich_json_file\<close>: the value returned, the document written back
  over the file (\<open>None\<close> when the file is not rewritten) and the lines printed.
\<close>

record enrich_result =
  returned :: bool
  rewritten :: "json option"
  shown :: "enrich_message list"

definition raise_error :: "enrich_error \<Rightarrow> enrich_result" where
  "raise_error e = \<lparr> returned = False, rewritten = None, shown = [ErrorProcessing e] \<rparr>"

text \<open>
  The document after the assignments to \<open>metadata\<close>.  When the document has no
  \<open>"metadata"\<close> key, \<open>data.get("metadata", {})\<close> is a fresh dictionary and the
  assignments do not reach the document.
\<close>

definition put_metadata :: "(string \<times> json) list \<Rightarrow> (string \<times> json) list \<Rightarrow> json" where
  "put_metadata data metadata' =
     (if map_of data ''metadata'' = None then JObj data
      else JObj (dict_set ''metadata'' (JObj metadata') data))"

text \<open>The interactive branch: the four answers, stripped, each written when not empty.\<close>

definition add_answers ::
  "string \<times> string \<times> string \<times> string \<Rightarrow> (string \<times> json) list \<Rightarrow> (string \<times> json) list" where
  "add_answers answers metadata =
     (case answers of (a1, a2, a3, a4) \<Rightarrow>
        (let el = strip a1; bio = strip a2; abilities_str = strip a3; ctype = strip a4;
             m1 = (if el \<noteq> [] then dict_set ''element'' (JStr el) metadata else metadata);
             m2 = (if bio \<noteq> [] then dict_set ''biography'' (JStr bio) m1 else m1);
             m3 = (if abilities_str \<noteq> []
                   then dict_set ''abilities'' (JArr (map (\<lambda>a. JStr (strip a)) (split_comma abilities_str))) m2
                   else m2);
             m4 = (if ctype \<noteq> [] then dict_set ''character_type'' (JStr ctype) m3 else m3)
         in m4))"

text \<open>
  \<open>enrich_json_file\<close>, from what opening and loading the file gives: the value, or the
  message of the exception.  \<open>answers\<close> is what the operator types at the four prompts
  (\<open>None\<close>: the input ends).  Writing the file back is taken to succeed.
\<close>

definition enrich_json_file ::
  "database \<Rightarrow> string + json \<Rightarrow> bool \<Rightarrow> (string \<times> string \<times> string \<times> string) option \<Rightarrow> enrich_result" where
  "enrich_json_file db loaded interactive answers =
     (case loaded of
        Inl e \<Rightarrow> raise_error (LoadError e)
      | Inr (JObj data) \<Rightarrow>
          (case (case map_of data ''metadata'' of None \<Rightarrow> JObj [] | Some m \<Rightarrow> m) of
             JObj metadata \<Rightarrow>
               (case (case map_of metadata ''original_filename'' of None \<Rightarrow> JStr [] | Some n \<Rightarrow> n) of
                  JStr filename \<Rightarrow>
                    (let character_name = replace ''.nfc'' [] filename
                     in if (case map_of metadata ''element'' of None \<Rightarrow> False | Some v \<Rightarrow> truthy v) \<and>
                           (case map_of metadata ''biography'' of None \<Rightarrow> False | Some v \<Rightarrow> truthy v)
                        then \<lparr> returned = False, rewritten = None,
                               shown = [AlreadyHasProfile character_name] \<rparr>
                        else
                          (case find_character_data db character_name of
                             Some char_data \<Rightarrow>
                               (let m1 = dict_set ''element'' (JStr (element char_data)) metadata;
                                    m2 = dict_set ''biography'' (JStr (biography char_data)) m1;
                                    m3 = dict_set ''abilities'' (JArr (map JStr (abilities char_data))) m2;
                                    m4 = dict_set ''character_type'' (JStr (character_type char_data)) m3
                                in \<lparr> returned = True, rewritten = Some (put_metadata data m4),
                                      shown = [Enriched character_name (element char_data)] \<rparr>)
                           | None \<Rightarrow>
                               if interactive
                               then (case answers of
                                       None \<Rightarrow>
                                         \<lparr> returned = False, rewritten = None,
                                            shown = [PromptCharacter character_name, ErrorProcessing EOFError] \<rparr>
                                     | Some ans \<Rightarrow>
                                         \<lparr> returned = True,
                                            rewritten = Some (put_metadata data (add_answers ans metadata)),
                                            shown = [PromptCharacter character_name, AddedData character_name] \<rparr>)
                               else \<lparr> returned = False, rewritten = None,
                                       shown = [NoDataFound character_name] \<rparr>))
                | _ \<Rightarrow> raise_error AttributeError)
           | _ \<Rightarrow> raise_error AttributeError)
      | Inr _ \<Rightarrow> raise_error AttributeError)"



section \<open>Properties of the matcher\<close>

lemma of_char_lt: "(of_char (x::char) :: nat) < 256"
  by (metis of_char_mod_256 mod_less_divisor zero_less_numeral)

lemma hex_ic_any: "\<forall>x. set_ok True is_hex_upper x = is_hex_any x"
  by code_simp

lemma hex_any_not_space: "is_hex_any x \<Longrightarrow> \<not> is_space x"
  by (auto simp: is_hex_any_def is_space_def)

lemma hex_any_upper_all: "\<forall>x. is_hex_any x \<longrightarrow> is_hex_upper (upper_char x)"
  by code_simp

lemma space_ic: "set_ok True is_space x = is_space x"
  using of_char_lt [of x]
  by (auto simp: set_ok_def is_space_def lower_char_def upper_char_def Let_def)

lemma rep_greedy_sound:
  "t \<in> set (rep_greedy p s) \<Longrightarrow> \<exists>w. s = w @ t \<and> (\<forall>x\<in>set w. p x)"
proof (induction s)
  case Nil
  then show ?case by simp
next
  case (Cons c s)
  show ?case
  proof (cases "t = c # s")
    case True
    then show ?thesis by simp
  next
    case False
    with Cons.prems have pc: "p c" and "t \<in> set (rep_greedy p s)"
      by (auto split: if_splits)
    with Cons.IH obtain w where "s = w @ t" "\<forall>x\<in>set w. p x" by blast
    with pc have "c # s = (c # w) @ t \<and> (\<forall>x\<in>set (c # w). p x)" by simp
    then show ?thesis by blast
  qed
qed

lemma hex_pair_sound:
  assumes "(t, g') \<in> set (rmatch ic (Rep 2 (CSet p)) (s, g))"
  shows "g' = g \<and> (\<exists>a b. s = a # b # t \<and> set_ok ic p a \<and> set_ok ic p b)"
  using assms
  by (auto simp: numeral_2_eq_2 split: list.splits if_splits)

lemma star_sound:
  assumes "(t, g') \<in> set (rmatch ic (Star q) (s, g))"
  shows "g' = g \<and> (\<exists>w. s = w @ t \<and> (\<forall>x\<in>set w. set_ok ic q x))"
  using assms rep_greedy_sound [of t "set_ok ic q" s] by auto

lemma byte_group_sound:
  assumes "(t, g') \<in> set (rmatch ic (Seq (Rep 2 (CSet p)) (Star q)) (s, g))"
  shows "g' = g \<and> (\<exists>a b w. s = a # b # w @ t \<and> set_ok ic p a \<and> set_ok ic p b
           \<and> (\<forall>x\<in>set w. set_ok ic q x))"
proof -
  from assms obtain u gu where 1: "(u, gu) \<in> set (rmatch ic (Rep 2 (CSet p)) (s, g))"
    and 2: "(t, g') \<in> set (rmatch ic (Star q) (u, gu))"
    by auto
  from hex_pair_sound [OF 1] star_sound [OF 2] show ?thesis by auto
qed

lemma byte_groups_sound:
  "(t, g') \<in> set (rmatch True (Rep n (Seq (Rep 2 (CSet is_hex_upper)) (Star is_space))) (s, g))
   \<Longrightarrow> g' = g \<and> (\<exists>w. s = w @ t \<and> length (filter (\<lambda>c. \<not> is_space c) w) = 2 * n
         \<and> (\<forall>x\<in>set (filter (\<lambda>c. \<not> is_space c) w). is_hex_any x))"
proof (induction n arbitrary: s g)
  case 0
  then show ?case by simp
next
  case (Suc n)
  let ?u = "Seq (Rep 2 (CSet is_hex_upper)) (Star is_space)"
  from Suc.prems obtain m gm where 1: "(m, gm) \<in> set (rmatch True ?u (s, g))"
    and 2: "(t, g') \<in> set (rmatch True (Rep n ?u) (m, gm))"
    by auto
  from byte_group_sound [OF 1] obtain a b w where gm: "gm = g" and s: "s = a # b # w @ m"
    and a: "is_hex_any a" and b: "is_hex_any b" and w: "\<forall>x\<in>set w. is_space x"
    using hex_ic_any space_ic by auto
  from Suc.IH [OF 2] obtain v where g': "g' = gm" and m: "m = v @ t"
    and len: "length (filter (\<lambda>c. \<not> is_space c) v) = 2 * n"
    and hexv: "\<forall>x\<in>set (filter (\<lambda>c. \<not> is_space c) v). is_hex_any x"
    by blast
  have fw: "filter (\<lambda>c. \<not> is_space c) w = []" using w by (simp add: filter_empty_conv)
  let ?w = "a # b # w @ v"
  have "s = ?w @ t" using s m by simp
  moreover have "length (filter (\<lambda>c. \<not> is_space c) ?w) = 2 * Suc n"
    using a b len fw hex_any_not_space by simp
  moreover have "\<forall>x\<in>set (filter (\<lambda>c. \<not> is_space c) ?w). is_hex_any x"
    using a b hexv fw by auto
  ultimately show ?case using g' gm by blast
qed

lemma seq_tail: "x \<in> set (rmatch ic (Seq a b) st) \<Longrightarrow> \<exists>st'. x \<in> set (rmatch ic b st')"
  by auto

lemma lits_tail:
  "x \<in> set (rmatch ic (lits cs r) st) \<Longrightarrow> \<exists>st'. x \<in> set (rmatch ic r st')"
proof (induction cs arbitrary: st)
  case Nil
  then show ?case by (cases st) (auto simp: lits_def)
next
  case (Cons c cs)
  from Cons.prems have "x \<in> set (rmatch ic (Seq (Lit c) (lits cs r)) st)"
    by (simp add: lits_def)
  then obtain st' where "x \<in> set (rmatch ic (lits cs r) st')"
    using seq_tail by blast
  with Cons.IH show ?case by blast
qed

lemma grp_sound:
  assumes "(t, g') \<in> set (rmatch ic (Grp i r) (s, g))"
  shows "\<exists>gx. (t, gx) \<in> set (rmatch ic r (s, g)) \<and> g' = gx(i \<mapsto> take (length s - length t) s)"
  using assms by auto

lemma block_re_sound:
  assumes "(t, g') \<in> set (rmatch True block_re st)"
  shows "\<exists>w. g' 2 = Some w \<and> length (filter (\<lambda>c. \<not> is_space c) w) = 32
           \<and> (\<forall>x\<in>set (filter (\<lambda>c. \<not> is_space c) w). is_hex_any x)"
proof -
  let ?body = "Rep 16 (Seq (Rep 2 (CSet is_hex_upper)) (Star is_space))"
  from assms have "\<exists>st'. (t, g') \<in> set (rmatch True (Grp 2 ?body) st')"
    unfolding block_re_def
    by (blast dest!: lits_tail seq_tail)
  then obtain s' g0 where "(t, g') \<in> set (rmatch True (Grp 2 ?body) (s', g0))"
    by (metis surj_pair)
  from grp_sound [OF this] obtain gx where 1: "(t, gx) \<in> set (rmatch True ?body (s', g0))"
    and 2: "g' = gx(2 \<mapsto> take (length s' - length t) s')" by blast
  from byte_groups_sound [OF 1] obtain w where w: "s' = w @ t"
    "length (filter (\<lambda>c. \<not> is_space c) w) = 2 * 16"
    "\<forall>x\<in>set (filter (\<lambda>c. \<not> is_space c) w). is_hex_any x" by blast
  from w(1) 2 have "g' 2 = Some w" by simp
  with w show ?thesis by simp
qed

lemma match_at_sound:
  "match_at ic r s = Some (n, g) \<Longrightarrow> \<exists>t. (t, g) \<in> set (rmatch ic r (s, Map.empty))"
  by (auto simp: match_at_def split: list.splits)

lemma finditer_from_sound:
  "g \<in> set (finditer_from k ic r s)
   \<Longrightarrow> \<exists>s' t. (t, g) \<in> set (rmatch ic r (s', Map.empty))"
proof (induction k ic r s rule: finditer_from.induct)
  case (1 k ic r)
  then show ?case by simp
next
  case (2 k ic r c s)
  then show ?case by simp
next
  case (3 ic r c s)
  show ?case
  proof (cases "match_at ic r (c # s)")
    case None
    with 3 show ?thesis by simp
  next
    case (Some a)
    obtain n g0 where a: "a = (n, g0)" by (cases a)
    from "3.prems" Some a have "g = g0 \<or> g \<in> set (finditer_from (n - 1) ic r s)" by simp
    then show ?thesis
    proof
      assume "g = g0"
      with Some a match_at_sound show ?thesis by blast
    next
      assume "g \<in> set (finditer_from (n - 1) ic r s)"
      with "3.IH"(2) Some a show ?thesis by simp
    qed
  qed
qed

lemma clean_block_good:
  assumes "length (filter (\<lambda>c. \<not> is_space c) w) = 32"
    and "\<forall>x\<in>set (filter (\<lambda>c. \<not> is_space c) w). is_hex_any x"
  shows "length (clean_block w) = 32 \<and> (\<forall>c\<in>set (clean_block w). is_hex_upper c)"
  using assms hex_any_upper_all by (auto simp: clean_block_def upper_def)

lemma block_matches_good:
  assumes "m \<in> set (block_matches content)"
  shows "length (clean_block (match_group m 2)) = 32 \<and> (\<forall>c\<in>set (clean_block (match_group m 2)). is_hex_upper c)"
proof -
  from assms finditer_from_sound obtain s' t where "(t, m) \<in> set (rmatch True block_re (s', Map.empty))"
    unfolding block_matches_def re_finditer_def by blast
  from block_re_sound [OF this] obtain w where "m 2 = Some w"
    "length (filter (\<lambda>c. \<not> is_space c) w) = 32"
    "\<forall>x\<in>set (filter (\<lambda>c. \<not> is_space c) w). is_hex_any x" by blast
  then show ?thesis using clean_block_good [of w] by (simp add: match_group_def)
qed


section \<open>Properties of the parser\<close>

lemma store_block_good:
  assumes "length (clean_block (match_group m 2)) = 32"
  shows "store_block m acc = ((fst acc)(block_num m \<mapsto> clean_block (match_group m 2)), snd acc)"
  using assms by (simp add: store_block_def Let_def)

lemma fold_store_block_good:
  assumes "\<forall>m\<in>set ms. length (clean_block (match_group m 2)) = 32
             \<and> (\<forall>c\<in>set (clean_block (match_group m 2)). is_hex_upper c)"
    and "\<forall>i b. fst acc i = Some b \<longrightarrow> length b = 32 \<and> (\<forall>c\<in>set b. is_hex_upper c)"
  shows "snd (fold store_block ms acc) = snd acc
       \<and> (\<forall>i b. fst (fold store_block ms acc) i = Some b \<longrightarrow> length b = 32 \<and> (\<forall>c\<in>set b. is_hex_upper c))
       \<and> (\<forall>i. i \<notin> block_num ` set ms \<longrightarrow> fst (fold store_block ms acc) i = fst acc i)"
  using assms
proof (induction ms arbitrary: acc)
  case Nil
  then show ?case by simp
next
  case (Cons m ms)
  let ?acc = "store_block m acc"
  from Cons.prems(1) have m: "length (clean_block (match_group m 2)) = 32"
    and mh: "\<forall>c\<in>set (clean_block (match_group m 2)). is_hex_upper c" by simp_all
  have eq: "?acc = ((fst acc)(block_num m \<mapsto> clean_block (match_group m 2)), snd acc)"
    using store_block_good [OF m] .
  have inv: "\<forall>i b. fst ?acc i = Some b \<longrightarrow> length b = 32 \<and> (\<forall>c\<in>set b. is_hex_upper c)"
    using Cons.prems(2) m mh by (simp add: eq)
  from Cons.prems(1) have rest: "\<forall>m\<in>set ms. length (clean_block (match_group m 2)) = 32
             \<and> (\<forall>c\<in>set (clean_block (match_group m 2)). is_hex_upper c)" by simp
  from Cons.IH [OF rest inv]
  have 1: "snd (fold store_block ms ?acc) = snd ?acc"
    and 2: "\<forall>i b. fst (fold store_block ms ?acc) i = Some b \<longrightarrow> length b = 32 \<and> (\<forall>c\<in>set b. is_hex_upper c)"
    and 3: "\<forall>i. i \<notin> block_num ` set ms \<longrightarrow> fst (fold store_block ms ?acc) i = fst ?acc i"
    by blast+
  have "snd (fold store_block (m # ms) acc) = snd acc" using 1 by (simp add: eq)
  moreover have "\<forall>i b. fst (fold store_block (m # ms) acc) i = Some b \<longrightarrow> length b = 32 \<and> (\<forall>c\<in>set b. is_hex_upper c)"
    using 2 by simp
  moreover have "\<forall>i. i \<notin> block_num ` set (m # ms) \<longrightarrow> fst (fold store_block (m # ms) acc) i = fst acc i"
    using 3 by (simp add: eq)
  ultimately show ?case by blast
qed

lemma empty_block_eq: "empty_block = replicate 32 CHR ''0''"
  by (simp add: empty_block_def numeral_eq_Suc)

lemma empty_block_good: "length empty_block = 32 \<and> (\<forall>c\<in>set empty_block. is_hex_upper c)"
  by (simp add: empty_block_eq is_hex_upper_def)

lemma collect_blocks_good:
  "snd (collect_blocks (block_matches content)) = []
   \<and> (\<forall>i b. fst (collect_blocks (block_matches content)) i = Some b \<longrightarrow> length b = 32 \<and> (\<forall>c\<in>set b. is_hex_upper c))
   \<and> (\<forall>i. i \<notin> set (found_indices content) \<longrightarrow> fst (collect_blocks (block_matches content)) i = None)"
  using fold_store_block_good [of "block_matches content" "(Map.empty, [])"] block_matches_good
  by (simp add: collect_blocks_def found_indices_def)

lemma parse_log_empty: "snd (parse_flipper_nfc_file content) = []"
  using collect_blocks_good by (simp add: parse_flipper_nfc_file_def Let_def)

lemma parse_blocks_eq:
  "blocks (fst (parse_flipper_nfc_file content)) = assemble (fst (collect_blocks (block_matches content)))"
  by (simp add: parse_flipper_nfc_file_def Let_def)

lemma assemble_length: "length (assemble bs) = 64"
  by (simp add: assemble_def)

lemma assemble_nth: "i < 64 \<Longrightarrow> assemble bs ! i = (case bs i of Some b \<Rightarrow> b | None \<Rightarrow> empty_block)"
  by (simp add: assemble_def)


text \<open>
  C1.  For every input text the record produced by \<open>parse_flipper_nfc_file\<close> has
  exactly 64 blocks, every block is a string of exactly 32 characters out of
  \<open>0-9A-F\<close>, and every index below 64 that no block line of the text names holds the
  placeholder of 32 zeros.
\<close>

theorem blocks_invariant:
  "length (blocks (fst (parse_flipper_nfc_file content))) = 64
   \<and> (\<forall>b\<in>set (blocks (fst (parse_flipper_nfc_file content))).
         length b = 32 \<and> (\<forall>c\<in>set b. is_hex_upper c))
   \<and> (\<forall>i<64. i \<notin> set (found_indices content)
         \<longrightarrow> blocks (fst (parse_flipper_nfc_file content)) ! i = replicate 32 CHR ''0'')"
proof -
  let ?bs = "fst (collect_blocks (block_matches content))"
  have good: "\<forall>i b. ?bs i = Some b \<longrightarrow> length b = 32 \<and> (\<forall>c\<in>set b. is_hex_upper c)"
    and none: "\<forall>i. i \<notin> set (found_indices content) \<longrightarrow> ?bs i = None"
    using collect_blocks_good by blast+
  have "\<forall>b\<in>set (assemble ?bs). length b = 32 \<and> (\<forall>c\<in>set b. is_hex_upper c)"
  proof
    fix b assume "b \<in> set (assemble ?bs)"
    then obtain i where "b = (case ?bs i of Some b \<Rightarrow> b | None \<Rightarrow> empty_block)"
      by (auto simp: assemble_def)
    then show "length b = 32 \<and> (\<forall>c\<in>set b. is_hex_upper c)"
      using good empty_block_good by (cases "?bs i") auto
  qed
  moreover have "\<forall>i<64. i \<notin> set (found_indices content) \<longrightarrow> assemble ?bs ! i = replicate 32 CHR ''0''"
    using none by (simp add: assemble_nth empty_block_eq)
  ultimately show ?thesis by (simp add: parse_blocks_eq assemble_length)
qed

theorem blocks_invariant_witness:
  "(0::nat) < 64
   \<and> 0 \<notin> set (found_indices ''Block 2: 0a 1b 2c 3d 4e 5f 00 11 22 33 44 55 66 77 88 99\<newline>'')
   \<and> blocks (fst (parse_flipper_nfc_file
        ''Block 2: 0a 1b 2c 3d 4e 5f 00 11 22 33 44 55 66 77 88 99\<newline>'')) ! 0
       = replicate 32 CHR ''0''
   \<and> length (blocks (fst (parse_flipper_nfc_file
        ''Block 2: 0a 1b 2c 3d 4e 5f 00 11 22 33 44 55 66 77 88 99\<newline>''))) = 64"
proof -
  have "found_indices ''Block 2: 0a 1b 2c 3d 4e 5f 00 11 22 33 44 55 66 77 88 99\<newline>'' = [2]"
    by code_simp
  then show ?thesis
    using blocks_invariant [of "''Block 2: 0a 1b 2c 3d 4e 5f 00 11 22 33 44 55 66 77 88 99\<newline>''"]
    by simp
qed

text \<open>
  C2.  The file of the specification's example: the four header fields, block 0, and
  63 placeholder blocks after it.
\<close>

theorem parse_example:
  "let r = fst (parse_flipper_nfc_file
     ''UID: 04 A2 B3\<newline>ATQA: 00 04\<newline>SAK: 08\<newline>Mifare Classic type: 1K\<newline>Block 0: 00 01 02 03 04 05 06 07 08 09 0A 0B 0C 0D 0E 0F\<newline>'')
   in uid r = Some ''04A2B3'' \<and> atqa r = Some ''0004'' \<and> sak r = Some ''08''
      \<and> mifare_type r = Some ''1K''
      \<and> length (blocks r) = 64
      \<and> blocks r ! 0 = ''000102030405060708090A0B0C0D0E0F''
      \<and> drop 1 (blocks r) = replicate 63 (replicate 32 CHR ''0'')"
  by code_simp


text \<open>
  C3.  The claim: labels and hexadecimal digits are matched in either case, also for
  \<open>ATQA:\<close> and \<open>SAK:\<close>.  The two patterns are compiled without
  \<open>re.IGNORECASE\<close>: a lower-case label is not found, and a value stops at its first
  lower-case digit, where the upper-case forms of the same lines give \<open>0A04\<close> and
  \<open>0B\<close>.  The \<open>UID:\<close> pattern of the same text does match in either case.
\<close>

theorem atqa_sak_case_sensitive:
  "atqa (fst (parse_flipper_nfc_file ''UID: 04 a2\<newline>atqa: 00 04\<newline>sak: 08\<newline>'')) = None
   \<and> sak (fst (parse_flipper_nfc_file ''UID: 04 a2\<newline>atqa: 00 04\<newline>sak: 08\<newline>'')) = None
   \<and> uid (fst (parse_flipper_nfc_file ''UID: 04 a2\<newline>atqa: 00 04\<newline>sak: 08\<newline>'')) = Some ''04A2''
   \<and> atqa (fst (parse_flipper_nfc_file ''ATQA: 0a 04\<newline>SAK: 0b\<newline>'')) = Some ''0''
   \<and> sak (fst (parse_flipper_nfc_file ''ATQA: 0a 04\<newline>SAK: 0b\<newline>'')) = Some ''0''
   \<and> atqa (fst (parse_flipper_nfc_file ''ATQA: 0A 04\<newline>SAK: 0B\<newline>'')) = Some ''0A04''
   \<and> sak (fst (parse_flipper_nfc_file ''ATQA: 0A 04\<newline>SAK: 0B\<newline>'')) = Some ''0B''"
  by code_simp

text \<open>
  C4.  The claim: some block line is cut to 32 characters with a warning, and some
  block line shorter than 32 characters is rejected with a warning.  The pattern takes
  exactly 16 byte pairs, so no match reaches either warning: a line of 17 pairs gives
  its first 16 pairs and a line of 10 pairs gives the placeholder, and nothing is
  printed for either.
\<close>

theorem malformed_blocks_no_warning:
  "snd (parse_flipper_nfc_file
     ''Block 1: 00 01 02 03 04 05 06 07 08 09 0A 0B 0C 0D 0E 0F 10\<newline>Block 2: 00 01 02 03 04 05 06 07 08 09\<newline>'') = []
   \<and> blocks (fst (parse_flipper_nfc_file
     ''Block 1: 00 01 02 03 04 05 06 07 08 09 0A 0B 0C 0D 0E 0F 10\<newline>Block 2: 00 01 02 03 04 05 06 07 08 09\<newline>'')) ! 1
       = ''000102030405060708090A0B0C0D0E0F''
   \<and> blocks (fst (parse_flipper_nfc_file
     ''Block 1: 00 01 02 03 04 05 06 07 08 09 0A 0B 0C 0D 0E 0F 10\<newline>Block 2: 00 01 02 03 04 05 06 07 08 09\<newline>'')) ! 2
       = replicate 32 CHR ''0''"
  by code_simp

lemma store_block_fst_cong:
  "fst acc i = fst acc' i \<Longrightarrow> fst (store_block m acc) i = fst (store_block m acc') i"
  by (auto simp: store_block_def Let_def)

lemma store_block_fst_other:
  "i \<noteq> block_num m \<Longrightarrow> fst (store_block m acc) i = fst acc i"
  by (simp add: store_block_def Let_def)

lemma fold_store_block_filter:
  "i < 64 \<Longrightarrow> fst acc i = fst acc' i
   \<Longrightarrow> fst (fold store_block ms acc) i
       = fst (fold store_block (filter (\<lambda>m. block_num m < 64) ms) acc') i"
proof (induction ms arbitrary: acc acc')
  case Nil
  then show ?case by simp
next
  case (Cons m ms)
  show ?case
  proof (cases "block_num m < 64")
    case True
    from Cons.prems(2) have "fst (store_block m acc) i = fst (store_block m acc') i"
      by (rule store_block_fst_cong)
    from Cons.IH [OF Cons.prems(1) this] True show ?thesis by simp
  next
    case False
    with Cons.prems(1) have "i \<noteq> block_num m" by auto
    then have "fst (store_block m acc) i = fst acc' i"
      using Cons.prems(2) by (simp add: store_block_fst_other)
    from Cons.IH [OF Cons.prems(1) this] False show ?thesis by simp
  qed
qed

lemma assemble_cong: "(\<And>i. i < 64 \<Longrightarrow> bs i = bs' i) \<Longrightarrow> assemble bs = assemble bs'"
  by (simp add: assemble_def)

text \<open>
  C6, as amended.  For every input text the blocks of the record are those built from
  the matched block lines whose number is below 64: a matched line with number 64 or
  more is dropped from the output, and no warning is printed for it (the warning list
  is empty).
\<close>

theorem high_index_dropped:
  "blocks (fst (parse_flipper_nfc_file content))
     = assemble (fst (collect_blocks (filter (\<lambda>m. block_num m < 64) (block_matches content))))
   \<and> snd (parse_flipper_nfc_file content) = []"
proof -
  have "assemble (fst (collect_blocks (block_matches content)))
      = assemble (fst (collect_blocks (filter (\<lambda>m. block_num m < 64) (block_matches content))))"
    unfolding collect_blocks_def
    by (rule assemble_cong) (rule fold_store_block_filter, simp_all)
  then show ?thesis by (simp add: parse_blocks_eq parse_log_empty)
qed

text \<open>
  The claim C6 as stated asks for a diagnostic whenever a matched block line is
  dropped.  The line below matches the block pattern with number 64; it is dropped and
  nothing is printed.
\<close>

theorem high_index_silent_counterexample:
  "found_indices ''Block 64: 00 01 02 03 04 05 06 07 08 09 0A 0B 0C 0D 0E 0F\<newline>'' = [64]
   \<and> blocks (fst (parse_flipper_nfc_file
        ''Block 64: 00 01 02 03 04 05 06 07 08 09 0A 0B 0C 0D 0E 0F\<newline>''))
       = replicate 64 (replicate 32 CHR ''0'')
   \<and> snd (parse_flipper_nfc_file
        ''Block 64: 00 01 02 03 04 05 06 07 08 09 0A 0B 0C 0D 0E 0F\<newline>'') = []"
  by code_simp


section \<open>Properties of the converter\<close>










text \<open>
  C7, as amended.  For every converted file the category and the subcategory are the
  first and the second component of the path relative to the source root, the file
  name counting as a component: the category is always present, and the subcategory
  is absent when the file lies directly under the source root.
\<close>

theorem category_from_path:
  assumes "file_text f = Inr content"
    and "\<not> uid_missing (uid (fst (parse_flipper_nfc_file content)))"
    and "rel_parts f = p # ps"
    and "path_name (p # ps) \<noteq> []"
  shows "map (\<lambda>w. (category (meta (snd w)), subcategory (meta (snd w))))
           (written (convert_file n f st))
         = map (\<lambda>w. (category (meta (snd w)), subcategory (meta (snd w)))) (written st)
           @ [(Some p, case ps of [] \<Rightarrow> None | q # qs \<Rightarrow> Some q)]"
  using assms
  by (cases ps) (simp_all add: convert_file_def with_suffix_json_def Let_def)

theorem category_from_path_witness:
  "\<not> uid_missing (uid (fst (parse_flipper_nfc_file ''UID: 04 A2 B3\<newline>'')))
   \<and> path_name [''Giants'', ''Air'', ''Jet-Vac.nfc''] \<noteq> []
   \<and> map (\<lambda>w. (category (meta (snd w)), subcategory (meta (snd w))))
        (written (convert_file 1
           \<lparr> file_str = ''src/Giants/Air/Jet-Vac.nfc'',
              rel_parts = [''Giants'', ''Air'', ''Jet-Vac.nfc''],
              file_text = Inr ''UID: 04 A2 B3\<newline>'' \<rparr> initial_state))
       = [(Some ''Giants'', Some ''Air'')]"
proof -
  let ?f = "\<lparr> file_str = ''src/Giants/Air/Jet-Vac.nfc'',
              rel_parts = [''Giants'', ''Air'', ''Jet-Vac.nfc''],
              file_text = Inr ''UID: 04 A2 B3\<newline>'' \<rparr>"
  have 1: "file_text ?f = Inr ''UID: 04 A2 B3\<newline>''" by simp
  have 2: "\<not> uid_missing (uid (fst (parse_flipper_nfc_file ''UID: 04 A2 B3\<newline>'')))"
    by code_simp
  have 3: "rel_parts ?f = ''Giants'' # [''Air'', ''Jet-Vac.nfc'']" by simp
  have 4: "path_name (''Giants'' # [''Air'', ''Jet-Vac.nfc'']) \<noteq> []"
    by (simp add: path_name_def)
  from category_from_path [OF 1 2 3 4, of 1 initial_state] 2 4 show ?thesis
    by (simp add: initial_state_def)
qed

text \<open>
  The claim C7 as stated gives a file directly under the source root no category.
  The relative path of such a file has one component, the file name, and that name is
  its category.
\<close>

theorem root_file_category_counterexample:
  "map (\<lambda>w. (fst w, original_filename (meta (snd w)), original_path (meta (snd w)),
               category (meta (snd w)), subcategory (meta (snd w))))
     (written (convert_all_nfc_files
        [\<lparr> file_str = ''src/Spyro.nfc'', rel_parts = [''Spyro.nfc''],
            file_text = Inr ''UID: 04 A2 B3\<newline>'' \<rparr>]))
   = [([''Spyro.json''], ''Spyro.nfc'', ''Spyro.nfc'', Some ''Spyro.nfc'', None)]"
  by code_simp

text \<open>
  C10.  The claim: a \<open>UID:\<close> line whose value is whitespace gives the empty uid and a
  \<open>Missing UID\<close> error.  It does when nothing follows the line.  When the next line
  holds hexadecimal digits, \<open>\s*\<close> runs over the line break, the uid is read from
  that next line and the file is converted.
\<close>

theorem blank_uid_takes_next_line:
  "uid (fst (parse_flipper_nfc_file ''UID: \<newline>04 A2\<newline>'')) = Some ''04A2''
   \<and> errors (convert_all_nfc_files
        [\<lparr> file_str = ''src/Spyro.nfc'', rel_parts = [''Spyro.nfc''],
            file_text = Inr ''UID: \<newline>04 A2\<newline>'' \<rparr>]) = []
   \<and> map fst (written (convert_all_nfc_files
        [\<lparr> file_str = ''src/Spyro.nfc'', rel_parts = [''Spyro.nfc''],
            file_text = Inr ''UID: \<newline>04 A2\<newline>'' \<rparr>])) = [[''Spyro.json'']]
   \<and> uid (fst (parse_flipper_nfc_file ''UID:   \<newline>'')) = Some []
   \<and> errors (convert_all_nfc_files
        [\<lparr> file_str = ''src/Spyro.nfc'', rel_parts = [''Spyro.nfc''],
            file_text = Inr ''UID:   \<newline>'' \<rparr>]) = [(''src/Spyro.nfc'', ''Missing UID'')]"
  by code_simp


section \<open>Properties of the normalizer and the enrichment pass\<close>

text \<open>
  C8, as amended.  \<open>normalize_name\<close> strips the suffix variants, then the series
  markers, then turns hyphens and underscores into spaces and trims, and collapses the
  aliases last.
\<close>

theorem normalize_name_order:
  "normalize_name name
     = collapse_aliases (separators_to_spaces (re_sub_empty True series_re (strip_variants name)))"
  by (simp add: normalize_name_def collapse_aliases_def separators_to_spaces_def
      strip_variants_def Let_def)

text \<open>
  The claim C8 as stated collapses the aliases before the hyphens are replaced.  On
  \<open>Crash-Bash\<close> that order leaves \<open>Crash Bash\<close>, where the function returns
  \<open>Bash\<close>.
\<close>

theorem normalize_order_counterexample:
  "normalize_name ''Crash-Bash'' = ''Bash''
   \<and> normalize_name_spec_order ''Crash-Bash'' = ''Crash Bash''"
  by code_simp

text \<open>
  C9.  A document whose metadata object already holds a true \<open>element\<close> and a true
  \<open>biography\<close>, with the \<open>original_filename\<close> a string as the converter writes it
  (or missing), is never rewritten: \<open>enrich_json_file\<close> reports it as already having
  profile data, named after the file name without \<open>.nfc\<close>, and returns \<open>False\<close>.
\<close>

theorem already_enriched_skipped:
  assumes "map_of data ''metadata'' = Some (JObj metadata)"
    and "map_of metadata ''element'' = Some e" and "truthy e"
    and "map_of metadata ''biography'' = Some b" and "truthy b"
    and "map_of metadata ''original_filename'' = None \<and> filename = []
         \<or> map_of metadata ''original_filename'' = Some (JStr filename)"
  shows "rewritten (enrich_json_file db (Inr (JObj data)) interactive answers) = None
       \<and> returned (enrich_json_file db (Inr (JObj data)) interactive answers) = False
       \<and> shown (enrich_json_file db (Inr (JObj data)) interactive answers)
           = [AlreadyHasProfile (replace ''.nfc'' [] filename)]"
  using assms
  by (auto simp: enrich_json_file_def Let_def)

theorem already_enriched_skipped_witness:
  "truthy (JStr ''Magic'') \<and> truthy (JStr ''A purple dragon.'')
   \<and> rewritten (enrich_json_file []
        (Inr (JObj [(''uid'', JStr ''04A2B3''),
           (''metadata'', JObj [(''original_filename'', JStr ''Spyro.nfc''),
              (''element'', JStr ''Magic''), (''biography'', JStr ''A purple dragon.'')])]))
        False None) = None
   \<and> returned (enrich_json_file []
        (Inr (JObj [(''uid'', JStr ''04A2B3''),
           (''metadata'', JObj [(''original_filename'', JStr ''Spyro.nfc''),
              (''element'', JStr ''Magic''), (''biography'', JStr ''A purple dragon.'')])]))
        False None) = False
   \<and> shown (enrich_json_file []
        (Inr (JObj [(''uid'', JStr ''04A2B3''),
           (''metadata'', JObj [(''original_filename'', JStr ''Spyro.nfc''),
              (''element'', JStr ''Magic''), (''biography'', JStr ''A purple dragon.'')])]))
        False None) = [AlreadyHasProfile ''Spyro'']"
proof -
  let ?metadata = "[(''original_filename'', JStr ''Spyro.nfc''),
              (''element'', JStr ''Magic''), (''biography'', JStr ''A purple dragon.'')]"
  let ?data = "[(''uid'', JStr ''04A2B3''), (''metadata'', JObj ?metadata)]"
  have 1: "map_of ?data ''metadata'' = Some (JObj ?metadata)" by simp
  have 2: "map_of ?metadata ''element'' = Some (JStr ''Magic'')" by simp
  have 3: "map_of ?metadata ''biography'' = Some (JStr ''A purple dragon.'')" by simp
  have 4: "truthy (JStr ''Magic'')" "truthy (JStr ''A purple dragon.'')" by simp_all
  have 5: "replace ''.nfc'' [] ''Spyro.nfc'' = ''Spyro''" by code_simp
  have 6: "map_of ?metadata ''original_filename'' = None \<and> ''Spyro.nfc'' = []
      \<or> map_of ?metadata ''original_filename'' = Some (JStr ''Spyro.nfc'')" by simp
  from already_enriched_skipped [OF 1 2 4(1) 3 4(2) 6, of "[]" False None] 5
  show ?thesis by simp
qed

end
